theory Spec2Isabelle
  imports Main "HOL-Library.Sublist"
begin

section \<open>Values exchanged with the remote service\<close>

text \<open>
  The clients of \<^verbatim>\<open>tests/e2e/utils\<close> handle decoded JSON values: Python's
  \<^verbatim>\<open>None\<close>, booleans, integers, strings, lists and dicts. A dict is an association
  list that is read from the front (a decoded dict has every key once). JSON numbers
  with a fraction are outside the model.
\<close>

datatype json =
    JNull
  | JBool bool
  | JInt int
  | JStr string
  | JArr "json list"
  | JObj "(string \<times> json) list"

text \<open>
  Every exception the modelled code raises or catches.
  \<^item> \<open>NotConnectedExc\<close>: the \<^verbatim>\<open>Exception\<close> of \<^verbatim>\<open>send_command\<close> (message
    "WebSocket not connected");
  \<^item> \<open>ConnectTimeoutExc\<close>: the \<^verbatim>\<open>Exception\<close> of \<^verbatim>\<open>connect\<close> (message
    "WebSocket connection timed out");
  \<^item> \<open>SendFailedExc c\<close>: the \<^verbatim>\<open>Exception\<close> of \<^verbatim>\<open>execute_command_and_wait\<close>
    (message "sending the command failed: c");
  \<^item> \<open>AttributeError\<close>: \<^verbatim>\<open>.get\<close> on a value that is not a dict;
  \<^item> \<open>ValueError\<close>: \<^verbatim>\<open>Queue.get\<close> with a negative timeout;
  \<^item> \<open>TransportError\<close>: what the websocket library raises when a frame is
    written to a socket that is not open, or hands to \<^verbatim>\<open>on_error\<close>;
  \<^item> \<open>RequestError\<close>, \<open>HTTPError code\<close>, \<open>JSONDecodeError\<close>: what
    \<^verbatim>\<open>requests\<close> raises for a failed round trip, a 4xx/5xx status
    (\<^verbatim>\<open>raise_for_status\<close>) and a body that is not JSON (\<^verbatim>\<open>response.json()\<close>).
\<close>

datatype exc =
    NotConnectedExc
  | ConnectTimeoutExc
  | SendFailedExc string
  | AttributeError
  | ValueError
  | TransportError
  | RequestError
  | HTTPError nat
  | JSONDecodeError

text \<open>Python's truth value of a decoded JSON value (\<^verbatim>\<open>if message:\<close>).\<close>

fun truthy :: "json \<Rightarrow> bool" where
  "truthy JNull = False"
| "truthy (JBool b) = b"
| "truthy (JInt n) = (n \<noteq> 0)"
| "truthy (JStr s) = (s \<noteq> [])"
| "truthy (JArr xs) = (xs \<noteq> [])"
| "truthy (JObj kvs) = (kvs \<noteq> [])"

text \<open>
  \<^verbatim>\<open>value.get(key)\<close>: the entry of a dict (\<open>None\<close> when the key is absent), and
  \<open>AttributeError\<close> on every value that is not a dict.
\<close>

fun py_get :: "json \<Rightarrow> string \<Rightarrow> exc + json option" where
  "py_get (JObj kvs) k = Inr (map_of kvs k)"
| "py_get _ k = Inl AttributeError"

text \<open>
  The two functions of Python's library that the clients call on data and that are
  not part of the repository: \<^verbatim>\<open>json.loads\<close> (\<open>None\<close> stands for
  \<^verbatim>\<open>JSONDecodeError\<close>) and \<^verbatim>\<open>str\<close> on a value that is not a string.
  Every definition below takes them as a parameter.
\<close>

record pylib =
  json_loads :: "string \<Rightarrow> json option"
  py_repr :: "json \<Rightarrow> string"

text \<open>\<^verbatim>\<open>str(v)\<close>: a string is its own text.\<close>

fun py_str :: "pylib \<Rightarrow> json \<Rightarrow> string" where
  "py_str L (JStr s) = s"
| "py_str L v = py_repr L v"

text \<open>\<^verbatim>\<open>sub in text\<close> on strings.\<close>

fun starts_with :: "string \<Rightarrow> string \<Rightarrow> bool" where
  "starts_with [] text = True"
| "starts_with (c # cs) [] = False"
| "starts_with (c # cs) (d # ds) = (c = d \<and> starts_with cs ds)"

fun str_in :: "string \<Rightarrow> string \<Rightarrow> bool" where
  "str_in sub [] = (sub = [])"
| "str_in sub (d # ds) = (starts_with sub (d # ds) \<or> str_in sub ds)"

section \<open>The streaming session client (\<^verbatim>\<open>websocket_client.py\<close>)\<close>

text \<open>
  The transport is the \<^verbatim>\<open>WebSocketApp\<close> object of the websocket library, seen
  through what the client uses of it: the address it was created for, the frames written
  to it, and whether its socket is open. Writing to a socket that is not open raises.
  An outbound frame is kept as the JSON value handed to \<^verbatim>\<open>json.dumps\<close>.
\<close>

record transport =
  url :: string
  sent :: "json list"
  sock_open :: bool

definition ws_send :: "transport \<Rightarrow> json \<Rightarrow> exc + transport" where
  "ws_send t frame =
     (if sock_open t then Inr (t\<lparr>sent := sent t @ [frame]\<rparr>) else Inl TransportError)"

definition ws_close :: "transport \<Rightarrow> transport" where
  "ws_close t = t\<lparr>sock_open := False\<rparr>"

text \<open>
  The callbacks that the library's thread (\<^verbatim>\<open>run_forever\<close>) invokes, each with the
  time in milliseconds at which it fires.
\<close>

datatype event =
    OnOpen
  | OnMessage string
  | OnError exc
  | OnClose

text \<open>
  A \<^verbatim>\<open>WebSocketClient\<close> object together with its environment. The fields
  \<open>base_url\<close> to \<open>ws_thread\<close> are the attributes of the object: \<open>messages\<close> is the
  \<^verbatim>\<open>Queue\<close> (head first), \<open>connected\<close> the \<^verbatim>\<open>threading.Event\<close>, and
  \<open>ws_thread\<close> is \<open>None\<close> before \<^verbatim>\<open>connect\<close> and \<open>Some alive\<close> afterwards.
  The environment is the clock \<open>now\<close> (milliseconds) and \<open>pending\<close>, the callbacks the
  background thread has still to run, in the order it will run them.
\<close>

record session =
  base_url :: string
  ws :: "transport option"
  messages :: "json list"
  connected :: bool
  error :: "exc option"
  ws_thread :: "bool option"
  now :: int
  pending :: "(int \<times> event) list"

definition sec :: "int \<Rightarrow> int" where
  "sec n = n * 1000"

definition thread_alive :: "session \<Rightarrow> bool" where
  "thread_alive s = (ws_thread s = Some True)"

definition is_connected :: "session \<Rightarrow> bool" where
  "is_connected s = connected s"

subsection \<open>The callbacks of \<^verbatim>\<open>connect\<close>\<close>

text \<open>The message queued for a frame that \<^verbatim>\<open>json.loads\<close> rejects.\<close>

definition raw_message :: "string \<Rightarrow> json" where
  "raw_message frame = JObj [(''type'', JStr ''raw''), (''data'', JStr frame)]"

text \<open>
  \<^verbatim>\<open>on_message\<close>. The decoded value is queued before its \<^verbatim>\<open>type\<close> is read, so
  a decoded value that is not a dict is queued and then raises \<open>AttributeError\<close>, which
  \<^verbatim>\<open>except json.JSONDecodeError\<close> does not catch: the callback returns the exception
  (if any) and the session as it has left it.
\<close>

definition on_message :: "pylib \<Rightarrow> session \<Rightarrow> string \<Rightarrow> exc option \<times> session" where
  "on_message L s frame =
     (case json_loads L frame of
        Some data \<Rightarrow>
          (let s1 = s\<lparr>messages := messages s @ [data]\<rparr> in
           case py_get data ''type'' of
             Inl e \<Rightarrow> (Some e, s1)
           | Inr ty \<Rightarrow>
               if ty = Some (JStr ''connected'') then (None, s1\<lparr>connected := True\<rparr>)
               else (None, s1))
      | None \<Rightarrow> (None, s\<lparr>messages := messages s @ [raw_message frame]\<rparr>))"

definition on_error :: "session \<Rightarrow> exc \<Rightarrow> session" where
  "on_error s e = s\<lparr>error := Some e\<rparr>"

definition on_close :: "session \<Rightarrow> session" where
  "on_close s = s\<lparr>connected := False\<rparr>"

definition on_open :: "session \<Rightarrow> session" where
  "on_open s = s"

text \<open>
  One step of the background thread. The library opens the socket before
  \<^verbatim>\<open>on_open\<close>, hands an exception that escapes a callback to \<^verbatim>\<open>on_error\<close>, and
  after \<^verbatim>\<open>on_close\<close> the socket is shut and \<^verbatim>\<open>run_forever\<close> returns, which ends
  the thread.
\<close>

definition deliver :: "pylib \<Rightarrow> event \<Rightarrow> session \<Rightarrow> session" where
  "deliver L ev s =
     (case ev of
        OnOpen \<Rightarrow> on_open (s\<lparr>ws := map_option (\<lambda>t. t\<lparr>sock_open := True\<rparr>) (ws s)\<rparr>)
      | OnMessage frame \<Rightarrow>
          (case on_message L s frame of
             (None, s1) \<Rightarrow> s1
           | (Some e, s1) \<Rightarrow> on_error s1 e)
      | OnError e \<Rightarrow> on_error s e
      | OnClose \<Rightarrow>
          (on_close s)\<lparr>ws := map_option ws_close (ws s), ws_thread := Some False\<rparr>)"

text \<open>
  A blocking call of the caller's thread (\<^verbatim>\<open>Queue.get\<close>, \<^verbatim>\<open>Event.wait\<close>,
  \<^verbatim>\<open>Thread.join\<close>, each with a timeout): the caller sleeps until the condition it
  waits for holds or the deadline is reached, and meanwhile the background thread runs
  its callbacks. A callback that fires strictly before the deadline is run; when the
  thread has ended, or nothing more fires in time, the call times out at the deadline.
  The result says whether the condition holds.
\<close>

function block_until ::
  "(session \<Rightarrow> bool) \<Rightarrow> pylib \<Rightarrow> int \<Rightarrow> session \<Rightarrow> bool \<times> session" where
  "block_until P L deadline s =
     (if P s then (True, s)
      else
        (case pending s of
           [] \<Rightarrow> (False, s\<lparr>now := max (now s) deadline\<rparr>)
         | (t, ev) # evs \<Rightarrow>
             if thread_alive s \<and> t < deadline
             then block_until P L deadline
                    (deliver L ev (s\<lparr>now := max (now s) t, pending := evs\<rparr>))
             else (False, s\<lparr>now := max (now s) deadline\<rparr>)))"
  by pat_completeness auto

lemma pending_deliver: "pending (deliver L ev s) = pending s"
  by (cases ev)
     (auto simp: deliver_def on_open_def on_error_def on_close_def on_message_def Let_def
           split: option.splits sum.splits prod.splits)

termination block_until
  by (relation "measure (\<lambda>(P, L, deadline, s). length (pending s))")
     (auto simp: pending_deliver)

declare block_until.simps [simp del]

subsection \<open>Sending and receiving\<close>

text \<open>
  \<^verbatim>\<open>send_command\<close>. The guard reads \<^verbatim>\<open>self.ws\<close> only; the write is inside
  \<^verbatim>\<open>try\<close>, and \<^verbatim>\<open>except Exception\<close> turns its failure into \<^verbatim>\<open>False\<close>.
\<close>

definition input_frame :: "string \<Rightarrow> json" where
  "input_frame cmd = JObj [(''type'', JStr ''input''), (''data'', JStr (cmd @ [CHR 0x0A]))]"

definition send_command :: "session \<Rightarrow> string \<Rightarrow> (exc + bool) \<times> session" where
  "send_command s cmd =
     (case ws s of
        None \<Rightarrow> (Inl NotConnectedExc, s)
      | Some t \<Rightarrow>
          (case ws_send t (input_frame cmd) of
             Inr t' \<Rightarrow> (Inr True, s\<lparr>ws := Some t'\<rparr>)
           | Inl e \<Rightarrow> (Inr False, s)))"

text \<open>
  \<^verbatim>\<open>get_output\<close>: \<^verbatim>\<open>Queue.get(timeout=...)\<close> refuses a negative timeout, blocks
  until the queue holds a message or the timeout is over, and \<^verbatim>\<open>Empty\<close> becomes
  \<^verbatim>\<open>None\<close>.
\<close>

definition get_output :: "pylib \<Rightarrow> session \<Rightarrow> int \<Rightarrow> (exc + json option) \<times> session" where
  "get_output L s timeout =
     (if timeout < 0 then (Inl ValueError, s)
      else
        (case block_until (\<lambda>s'. messages s' \<noteq> []) L (now s + sec timeout) s of
           (_, s1) \<Rightarrow>
             (case messages s1 of
                m # q \<Rightarrow> (Inr (Some m), s1\<lparr>messages := q\<rparr>)
              | [] \<Rightarrow> (Inr None, s1))))"

text \<open>
  \<^verbatim>\<open>expected_output and expected_output in str(message.get("data", ""))\<close>: false
  for an omitted or empty expectation, without looking at the message.
\<close>

definition found :: "pylib \<Rightarrow> string option \<Rightarrow> json \<Rightarrow> exc + bool" where
  "found L expected_output m =
     (case expected_output of
        None \<Rightarrow> Inr False
      | Some ex \<Rightarrow>
          if ex = [] then Inr False
          else
            (case py_get m ''data'' of
               Inl e \<Rightarrow> Inl e
             | Inr d \<Rightarrow> Inr (str_in ex (py_str L (case d of None \<Rightarrow> JStr [] | Some v \<Rightarrow> v)))))"

text \<open>The first loop of \<^verbatim>\<open>execute_command_and_wait\<close>: one \<^verbatim>\<open>get_nowait\<close> per queued message.\<close>

fun drain_queue :: "json list \<Rightarrow> json list" where
  "drain_queue [] = []"
| "drain_queue (m # q) = drain_queue q"

definition drain :: "session \<Rightarrow> session" where
  "drain s = s\<lparr>messages := drain_queue (messages s)\<rparr>"

subsection \<open>Waiting for the output of a command\<close>

text \<open>
  The work left for the loops below: two units for each callback still to run, one
  for each queued message. A call of \<^verbatim>\<open>get_output\<close> uses some of it up, or it
  finds nothing and a full second passes.
\<close>

definition load :: "session \<Rightarrow> nat" where
  "load s = 2 * length (pending s) + length (messages s)"

lemma messages_deliver_le: "length (messages (deliver L ev s)) \<le> Suc (length (messages s))"
  by (cases ev)
     (auto simp: deliver_def on_open_def on_error_def on_close_def on_message_def Let_def
           split: option.splits sum.splits prod.splits)


lemma block_until_load:
  "block_until P L d s = (b, s1) \<Longrightarrow>
     load s1 < load s \<or> s1 = (if b then s else s\<lparr>now := max (now s) d\<rparr>)"
proof (induction P L d s arbitrary: b s1 rule: block_until.induct)
  case (1 P L deadline s)
  note [simp] = block_until.simps [of P L deadline s]
  show ?case
  proof (cases "P s")
    case True
    with "1.prems" show ?thesis by simp
  next
    case False
    show ?thesis
    proof (cases "pending s")
      case Nil
      with False "1.prems" show ?thesis by auto
    next
      case (Cons p evs)
      obtain t ev where p: "p = (t, ev)" by (cases p)
      show ?thesis
      proof (cases "thread_alive s \<and> t < deadline")
        case go: True
        let ?s' = "deliver L ev (s\<lparr>now := max (now s) t, pending := evs\<rparr>)"
        from False Cons p go "1.prems" have run: "block_until P L deadline ?s' = (b, s1)"
          by simp
        have "load ?s' < load s"
          using messages_deliver_le [of L ev "s\<lparr>now := max (now s) t, pending := evs\<rparr>"] Cons
          by (simp add: load_def pending_deliver)
        moreover have "load s1 \<le> load ?s'"
          using "1.IH" [OF False Cons p [symmetric] go run]
          by (auto simp: load_def split: if_splits)
        ultimately show ?thesis by simp
      next
        case stop: False
        with False Cons p "1.prems" show ?thesis by auto
      qed
    qed
  qed
qed

lemma block_until_True: "block_until P L d s = (True, s1) \<Longrightarrow> P s1"
proof (induction P L d s arbitrary: s1 rule: block_until.induct)
  case (1 P L deadline s)
  note [simp] = block_until.simps [of P L deadline s]
  show ?case
  proof (cases "P s")
    case True
    with "1.prems" show ?thesis by simp
  next
    case False
    show ?thesis
    proof (cases "pending s")
      case Nil
      with False "1.prems" show ?thesis by simp
    next
      case (Cons p evs)
      obtain t ev where p: "p = (t, ev)" by (cases p)
      show ?thesis
      proof (cases "thread_alive s \<and> t < deadline")
        case go: True
        from False Cons p go "1.prems"
        have "block_until P L deadline
                (deliver L ev (s\<lparr>now := max (now s) t, pending := evs\<rparr>)) = (True, s1)"
          by simp
        from "1.IH" [OF False Cons p [symmetric] go this] show ?thesis .
      next
        case stop: False
        with False Cons p "1.prems" show ?thesis by auto
      qed
    qed
  qed
qed

lemma get_output_progress:
  assumes "get_output L s 1 = (r, s1)"
  shows "load s1 < load s \<or> (load s1 = load s \<and> now s1 = now s + 1000)"
proof -
  obtain b s' where blk: "block_until (\<lambda>s'. messages s' \<noteq> []) L (now s + sec 1) s = (b, s')"
    by (cases "block_until (\<lambda>s'. messages s' \<noteq> []) L (now s + sec 1) s")
  note ld = block_until_load [OF blk]
  show ?thesis
  proof (cases "messages s'")
    case Nil
    with blk assms have s1: "s1 = s'" by (simp add: get_output_def)
    from Nil block_until_True [of "\<lambda>s'. messages s' \<noteq> []" L _ s s'] blk have "\<not> b"
      by (cases b) auto
    with ld s1 show ?thesis by (auto simp: load_def sec_def)
  next
    case (Cons m q)
    with blk assms have s1: "s1 = s'\<lparr>messages := q\<rparr>" by (simp add: get_output_def)
    have "load s1 < load s'" using Cons s1 by (simp add: load_def)
    moreover have "load s' \<le> load s" using ld by (auto simp: load_def split: if_splits)
    ultimately show ?thesis by simp
  qed
qed

lemma collect_decreases:
  assumes "get_output L s 1 = (r, s1)" and "now s - st < sec T"
  shows "((L, s1, st, T, ex, o1), (L, s, st, T, ex, o2))
           \<in> measures [\<lambda>(L, s, st, T, ex, outs). load s,
                        \<lambda>(L, s, st, T, ex, outs). nat (st + sec T - now s)]"
proof -
  from get_output_progress [OF assms(1)]
  have "load s1 < load s \<or> (load s1 = load s \<and> now s1 = now s + 1000)" .
  then show ?thesis
  proof
    assume "load s1 < load s"
    then show ?thesis by simp
  next
    assume a: "load s1 = load s \<and> now s1 = now s + 1000"
    with assms(2) have "nat (st + sec T - now s1) < nat (st + sec T - now s)" by simp
    with a show ?thesis by simp
  qed
qed

text \<open>
  The loop of \<^verbatim>\<open>execute_command_and_wait\<close>. A falsy message (and \<^verbatim>\<open>None\<close>
  after an empty second) is not collected; a collected message ends the loop when the
  expectation is found in it; the deadline is read at the top of the loop only.
\<close>

function collect ::
  "pylib \<Rightarrow> session \<Rightarrow> int \<Rightarrow> int \<Rightarrow> string option \<Rightarrow> json list
     \<Rightarrow> (exc + json list) \<times> session" where
  "collect L s start_time timeout expected_output outs =
     (if now s - start_time < sec timeout then
        (case get_output L s 1 of
           (Inl e, s1) \<Rightarrow> (Inl e, s1)
         | (Inr None, s1) \<Rightarrow> collect L s1 start_time timeout expected_output outs
         | (Inr (Some m), s1) \<Rightarrow>
             if truthy m then
               (case found L expected_output m of
                  Inl e \<Rightarrow> (Inl e, s1)
                | Inr True \<Rightarrow> (Inr (outs @ [m]), s1)
                | Inr False \<Rightarrow> collect L s1 start_time timeout expected_output (outs @ [m]))
             else collect L s1 start_time timeout expected_output outs)
      else (Inr outs, s))"
  by pat_completeness auto
termination
proof (relation "measures [\<lambda>(L, s, st, T, ex, outs). load s,
                           \<lambda>(L, s, st, T, ex, outs). nat (st + sec T - now s)]", goal_cases)
  case 1
  show ?case by simp
next
  case (2 L s start_time timeout expected_output outs x y x2)
  from 2(2) have "get_output L s 1 = (x, y)" by simp
  from collect_decreases [OF this 2(1)] show ?case .
next
  case (3 L s start_time timeout expected_output outs x y x2 x2a)
  from 3(2) have "get_output L s 1 = (x, y)" by simp
  from collect_decreases [OF this 3(1)] show ?case .
next
  case (4 L s start_time timeout expected_output outs x y x2 x2a)
  from 4(2) have "get_output L s 1 = (x, y)" by simp
  from collect_decreases [OF this 4(1)] show ?case .
qed

declare collect.simps [simp del]

text \<open>The dict \<^verbatim>\<open>execute_command_and_wait\<close> returns.\<close>

record cmd_result =
  command :: string
  outputs :: "json list"
  success :: bool

definition execute_command_and_wait ::
  "pylib \<Rightarrow> session \<Rightarrow> string \<Rightarrow> string option \<Rightarrow> int
     \<Rightarrow> (exc + cmd_result) \<times> session" where
  "execute_command_and_wait L s cmd expected_output timeout =
     (let s0 = drain s in
      case send_command s0 cmd of
        (Inl e, s1) \<Rightarrow> (Inl e, s1)
      | (Inr sent_ok, s1) \<Rightarrow>
          if \<not> sent_ok then (Inl (SendFailedExc cmd), s1)
          else
            (case collect L s1 (now s1) timeout expected_output [] of
               (Inl e, s2) \<Rightarrow> (Inl e, s2)
             | (Inr outs, s2) \<Rightarrow>
                 (Inr \<lparr>command = cmd, outputs = outs, success = (length outs > 0)\<rparr>, s2)))"

subsection \<open>Opening and closing the session\<close>

text \<open>
  \<^verbatim>\<open>connect\<close>: a new transport for the container's terminal, a new background
  thread, and \<^verbatim>\<open>self.connected.wait(timeout=10)\<close>.
\<close>

definition connect :: "pylib \<Rightarrow> session \<Rightarrow> string \<Rightarrow> (exc + bool) \<times> session" where
  "connect L s container_id =
     (let ws_url = base_url s @ ''/terminal?container_id='' @ container_id;
          s1 = s\<lparr>ws := Some \<lparr>url = ws_url, sent = [], sock_open = False\<rparr>,
                 ws_thread := Some True\<rparr>
      in case block_until connected L (now s1 + sec 10) s1 of
           (True, s2) \<Rightarrow> (Inr True, s2)
         | (False, s2) \<Rightarrow> (Inl ConnectTimeoutExc, s2))"

text \<open>
  \<^verbatim>\<open>close\<close>: closes the transport if there is one, and joins the thread for at most
  five seconds if there is one and it is alive.
\<close>

definition close :: "pylib \<Rightarrow> session \<Rightarrow> session" where
  "close L s =
     (let s1 = (case ws s of None \<Rightarrow> s | Some t \<Rightarrow> s\<lparr>ws := Some (ws_close t)\<rparr>)
      in if thread_alive s1
         then snd (block_until (\<lambda>s'. \<not> thread_alive s') L (now s1 + sec 5) s1)
         else s1)"

section \<open>The control client (\<^verbatim>\<open>api_client.py\<close>)\<close>

text \<open>
  What one HTTP round trip brings back: nothing (the request itself raises), or a
  status code with the body as \<^verbatim>\<open>response.json()\<close> decodes it (\<open>None\<close> when it
  is not JSON).
\<close>

datatype response =
    NoResponse
  | Response nat "json option"

text \<open>
  An \<^verbatim>\<open>APIClient\<close> with its environment: the clock in milliseconds, the number of
  requests made so far, and the remote service, which tells for the \<open>i\<close>-th request
  and its address how long the round trip takes and what it returns.
\<close>

record api =
  api_url :: string
  clock :: int
  requests_made :: nat
  server :: "nat \<Rightarrow> string \<Rightarrow> nat \<times> response"

definition http_get :: "api \<Rightarrow> string \<Rightarrow> response \<times> api" where
  "http_get a address =
     (case server a (requests_made a) address of
        (duration, r) \<Rightarrow>
          (r, a\<lparr>clock := clock a + int duration, requests_made := Suc (requests_made a)\<rparr>))"

definition status_address :: "api \<Rightarrow> string \<Rightarrow> string" where
  "status_address a container_id = api_url a @ ''/api/containers/'' @ container_id @ ''/status''"

text \<open>\<^verbatim>\<open>raise_for_status\<close> raises for the codes 400 to 599.\<close>

definition decode_response :: "response \<Rightarrow> exc + json" where
  "decode_response r =
     (case r of
        NoResponse \<Rightarrow> Inl RequestError
      | Response code body \<Rightarrow>
          if 400 \<le> code \<and> code < 600 then Inl (HTTPError code)
          else (case body of None \<Rightarrow> Inl JSONDecodeError | Some j \<Rightarrow> Inr j))"

definition get_container_status :: "api \<Rightarrow> string \<Rightarrow> (exc + json) \<times> api" where
  "get_container_status a container_id =
     (case http_get a (status_address a container_id) of
        (r, a1) \<Rightarrow> (decode_response r, a1))"

definition sleep :: "api \<Rightarrow> int \<Rightarrow> api" where
  "sleep a n = a\<lparr>clock := clock a + sec n\<rparr>"

text \<open>
  The body of \<^verbatim>\<open>try\<close> in \<^verbatim>\<open>wait_for_container_ready\<close>: whether the poll has
  returned a dict whose \<^verbatim>\<open>status\<close> is \<^verbatim>\<open>"running"\<close>, or the exception raised
  on the way.
\<close>

definition poll_running :: "api \<Rightarrow> string \<Rightarrow> (exc + bool) \<times> api" where
  "poll_running a container_id =
     (case get_container_status a container_id of
        (Inl e, a1) \<Rightarrow> (Inl e, a1)
      | (Inr status, a1) \<Rightarrow>
          (case py_get status ''status'' of
             Inl e \<Rightarrow> (Inl e, a1)
           | Inr v \<Rightarrow> (Inr (v = Some (JStr ''running'')), a1)))"

lemma clock_poll_running: "poll_running a cid = (r, a1) \<Longrightarrow> clock a \<le> clock a1"
  by (auto simp: poll_running_def get_container_status_def http_get_def
           split: prod.splits sum.splits)

text \<open>
  The loop of \<^verbatim>\<open>wait_for_container_ready\<close>. The bare \<^verbatim>\<open>except: pass\<close> turns
  every exception of the poll into "not running"; \<^verbatim>\<open>time.sleep(1)\<close> follows every
  poll that has not returned.
\<close>

function wait_loop :: "api \<Rightarrow> string \<Rightarrow> int \<Rightarrow> int \<Rightarrow> (exc + bool) \<times> api" where
  "wait_loop a container_id start_time timeout =
     (if clock a - start_time < sec timeout then
        (case poll_running a container_id of
           (Inr True, a1) \<Rightarrow> (Inr True, a1)
         | (Inr False, a1) \<Rightarrow> wait_loop (sleep a1 1) container_id start_time timeout
         | (Inl e, a1) \<Rightarrow> wait_loop (sleep a1 1) container_id start_time timeout)
      else (Inr False, a))"
  by pat_completeness auto
termination
proof (relation "measure (\<lambda>(a, cid, st, T). nat (st + sec T - clock a))", goal_cases)
  case 1
  show ?case by simp
next
  case (2 a container_id start_time timeout x y x2)
  from 2(2) have "poll_running a container_id = (x, y)" by simp
  from clock_poll_running [OF this] 2(1) show ?case by (simp add: sleep_def sec_def)
next
  case (3 a container_id start_time timeout x y x2)
  from 3(2) have "poll_running a container_id = (x, y)" by simp
  from clock_poll_running [OF this] 3(1) show ?case by (simp add: sleep_def sec_def)
qed

declare wait_loop.simps [simp del]

definition wait_for_container_ready :: "api \<Rightarrow> string \<Rightarrow> int \<Rightarrow> (exc + bool) \<times> api" where
  "wait_for_container_ready a container_id timeout =
     wait_loop a container_id (clock a) timeout"

section \<open>Vocabulary of the claims\<close>




text \<open>
  The connected flag is set only by the background thread while it lives, and cleared
  when it ends: a session in which the flag is set has a live thread.
\<close>

definition well_formed :: "session \<Rightarrow> bool" where
  "well_formed s = (connected s \<longrightarrow> thread_alive s)"

text \<open>
  For \<^verbatim>\<open>wait_for_container_ready\<close> called in state \<open>a\<close>: the \<open>k\<close>-th round trip
  the remote will answer, whether its answer shows the status \<^verbatim>\<open>"running"\<close>, and
  the time at which the \<open>k\<close>-th poll is issued when every poll before it has been
  followed by the sleep of one second.
\<close>

definition sees_running :: "response \<Rightarrow> bool" where
  "sees_running r =
     (case decode_response r of
        Inl e \<Rightarrow> False
      | Inr status \<Rightarrow>
          (case py_get status ''status'' of
             Inl e \<Rightarrow> False
           | Inr v \<Rightarrow> v = Some (JStr ''running'')))"

definition poll :: "api \<Rightarrow> string \<Rightarrow> nat \<Rightarrow> nat \<times> response" where
  "poll a container_id k = server a (requests_made a + k) (status_address a container_id)"

fun poll_start :: "api \<Rightarrow> string \<Rightarrow> nat \<Rightarrow> int" where
  "poll_start a container_id 0 = clock a"
| "poll_start a container_id (Suc k) =
     poll_start a container_id k + int (fst (poll a container_id k)) + sec 1"

section \<open>Example runs\<close>

text \<open>
  A decoder for the frames of the examples (everything else is not JSON); \<^verbatim>\<open>str\<close>
  is not needed on anything but strings there.
\<close>

definition loads0 :: "string \<Rightarrow> json option" where
  \<open>loads0 frame =
     (if frame = ''{"type": "connected"}'' then Some (JObj [(''type'', JStr ''connected'')])
      else if frame = ''{"type": "output", "data": "partial"}''
        then Some (JObj [(''type'', JStr ''output''), (''data'', JStr ''partial'')])
      else if frame = ''{"type": "output", "data": "done"}''
        then Some (JObj [(''type'', JStr ''output''), (''data'', JStr ''done'')])
      else None)\<close>

definition lib0 :: pylib where
  "lib0 = \<lparr>json_loads = loads0, py_repr = (\<lambda>v. [])\<rparr>"

text \<open>A client as \<^verbatim>\<open>__init__\<close> leaves it, at time 0.\<close>

definition fresh :: session where
  "fresh = \<lparr>base_url = ''ws://localhost:3006/ws'', ws = None, messages = [],
            connected = False, error = None, ws_thread = None, now = 0, pending = []\<rparr>"



text \<open>A connected session with nothing going on.\<close>

definition live :: session where
  "live = fresh\<lparr>ws := Some \<lparr>url = ''ws://localhost:3006/ws/terminal?container_id=c1'',
                           sent = [], sock_open = True\<rparr>,
                connected := True, ws_thread := Some True\<rparr>"

text \<open>The same session after the remote has closed it.\<close>

definition closed_session :: session where
  "closed_session =
     fresh\<lparr>ws := Some \<lparr>url = ''ws://localhost:3006/ws/terminal?container_id=c1'',
                        sent = [], sock_open = False\<rparr>,
           connected := False, ws_thread := Some False\<rparr>"

definition partial_msg :: json where
  "partial_msg = JObj [(''type'', JStr ''output''), (''data'', JStr ''partial'')]"




text \<open>A connected session that receives one message and is then closed by the remote.\<close>

definition closing :: session where
  \<open>closing =
     live\<lparr>pending := [(100, OnMessage ''{"type": "output", "data": "partial"}''),
                      (200, OnClose)]\<rparr>\<close>


text \<open>
  A control service whose container is running but which takes five seconds to answer,
  and one that fails twice and reports \<^verbatim>\<open>"starting"\<close> once before it reports
  \<^verbatim>\<open>"running"\<close>.
\<close>

definition slow_api :: api where
  "slow_api =
     \<lparr>api_url = ''http://localhost:3006'', clock = 0, requests_made = 0,
      server = (\<lambda>i address. (5000, Response 200 (Some (JObj [(''status'', JStr ''running'')]))))\<rparr>"

definition flaky_api :: api where
  "flaky_api =
     \<lparr>api_url = ''http://localhost:3006'', clock = 0, requests_made = 0,
      server = (\<lambda>i address.
        if i = 0 then (100, Response 500 None)
        else if i = 1 then (100, NoResponse)
        else if i = 2 then (100, Response 200 (Some (JObj [(''status'', JStr ''starting'')])))
        else (100, Response 200 (Some (JObj [(''status'', JStr ''running'')]))))\<rparr>"

section \<open>Properties of the blocking calls\<close>


lemma drain_queue_Nil: "drain_queue q = []"
  by (induction q) simp_all

lemma drain_eq: "drain s = s\<lparr>messages := []\<rparr>"
  by (simp add: drain_def drain_queue_Nil)


lemma get_output_idle:
  assumes "\<not> thread_alive s" and "messages s = []"
  shows "get_output L s 1 = (Inr None, s\<lparr>now := now s + 1000\<rparr>)"
  using assms
  by (simp add: get_output_def block_until.simps [of _ L _ s] sec_def split: list.splits)









subsection \<open>Every operation keeps the session well formed\<close>

lemma well_formed_deliver: "thread_alive s \<Longrightarrow> well_formed (deliver L ev s)"
  by (cases ev)
     (auto simp: well_formed_def deliver_def on_open_def on_error_def on_close_def
                 on_message_def Let_def thread_alive_def
           split: option.splits sum.splits prod.splits)

lemma well_formed_block_until:
  "well_formed s \<Longrightarrow> well_formed (snd (block_until P L d s))"
proof (induction P L d s rule: block_until.induct)
  case (1 P L deadline s)
  note [simp] = block_until.simps [of P L deadline s]
  show ?case
  proof (cases "P s")
    case True
    with "1.prems" show ?thesis by simp
  next
    case False
    show ?thesis
    proof (cases "pending s")
      case Nil
      with False "1.prems" show ?thesis by (simp add: well_formed_def thread_alive_def)
    next
      case (Cons p evs)
      obtain t ev where p: "p = (t, ev)" by (cases p)
      show ?thesis
      proof (cases "thread_alive s \<and> t < deadline")
        case go: True
        let ?s0 = "s\<lparr>now := max (now s) t, pending := evs\<rparr>"
        from go have "thread_alive ?s0" by (simp add: thread_alive_def)
        then have "well_formed (deliver L ev ?s0)" by (rule well_formed_deliver)
        from "1.IH" [OF False Cons p [symmetric] go this] False Cons p go
        show ?thesis by simp
      next
        case stop: False
        with False Cons p "1.prems" show ?thesis
          by (auto simp: well_formed_def thread_alive_def)
      qed
    qed
  qed
qed

lemma well_formed_connect: "well_formed (snd (connect L s container_id))"
proof -
  define s1 where
    "s1 = s\<lparr>ws := Some \<lparr>url = base_url s @ ''/terminal?container_id='' @ container_id,
                           sent = [], sock_open = False\<rparr>, ws_thread := Some True\<rparr>"
  have "well_formed s1" by (simp add: s1_def well_formed_def thread_alive_def)
  from well_formed_block_until [OF this, of connected L "now s1 + sec 10"]
  show ?thesis
    unfolding connect_def Let_def s1_def [symmetric]
    by (auto split: prod.splits bool.splits)
qed

lemma well_formed_get_output:
  "well_formed s \<Longrightarrow> well_formed (snd (get_output L s timeout))"
  using well_formed_block_until [of s "\<lambda>s'. messages s' \<noteq> []" L "now s + sec timeout"]
  by (auto simp: get_output_def well_formed_def thread_alive_def split: prod.splits list.splits)

lemma well_formed_collect:
  "well_formed s \<Longrightarrow> well_formed (snd (collect L s st T ex outs))"
proof (induction L s st T ex outs rule: collect.induct)
  case (1 L s st T ex outs)
  show ?case
  proof (cases "now s - st < sec T")
    case False
    with "1.prems" show ?thesis by (simp add: collect.simps [of L s])
  next
    case guard: True
    obtain r s1 where go: "get_output L s 1 = (r, s1)" by (cases "get_output L s 1")
    from well_formed_get_output [OF "1.prems", of L 1] go have wf1: "well_formed s1" by simp
    show ?thesis
    proof (cases r)
      case (Inl e)
      with go guard wf1 show ?thesis by (simp add: collect.simps [of L s])
    next
      case (Inr mo)
      show ?thesis
      proof (cases mo)
        case None
        from "1.IH"(1) [OF guard go [symmetric] Inr None wf1] go guard Inr None
        show ?thesis by (simp add: collect.simps [of L s])
      next
        case (Some m)
        show ?thesis
        proof (cases "truthy m")
          case False
          from "1.IH"(3) [OF guard go [symmetric] Inr Some False wf1] go guard Inr Some False
          show ?thesis by (simp add: collect.simps [of L s])
        next
          case tr: True
          show ?thesis
          proof (cases "found L ex m")
            case (Inl e)
            with go guard Inr Some tr wf1 show ?thesis by (simp add: collect.simps [of L s])
          next
            case fd: (Inr hit)
            show ?thesis
            proof (cases hit)
              case True
              with fd go guard Inr Some tr wf1 show ?thesis
                by (simp add: collect.simps [of L s])
            next
              case False
              then have hf: "hit = False" by simp
              from "1.IH"(2) [OF guard go [symmetric] Inr Some tr fd hf wf1]
                   go guard Inr Some tr fd hf
              show ?thesis by (simp add: collect.simps [of L s])
            qed
          qed
        qed
      qed
    qed
  qed
qed

lemma well_formed_execute:
  "well_formed s \<Longrightarrow> well_formed (snd (execute_command_and_wait L s cmd ex T))"
proof -
  assume wf: "well_formed s"
  obtain q s1 where snd1: "send_command (drain s) cmd = (q, s1)"
    by (cases "send_command (drain s) cmd")
  have wf1: "well_formed s1"
    using snd1 wf
    by (auto simp: send_command_def drain_eq well_formed_def thread_alive_def
             split: option.splits sum.splits)
  from well_formed_collect [OF wf1, of L "now s1" T ex "[]"] snd1 wf1
  show ?thesis
    by (auto simp: execute_command_and_wait_def Let_def split: sum.splits prod.splits)
qed

lemma well_formed_close: "well_formed s \<Longrightarrow> well_formed (close L s)"
proof -
  assume wf: "well_formed s"
  define s1 where "s1 = (case ws s of None \<Rightarrow> s | Some t \<Rightarrow> s\<lparr>ws := Some (ws_close t)\<rparr>)"
  have wf1: "well_formed s1"
    using wf by (simp add: s1_def well_formed_def thread_alive_def split: option.splits)
  from well_formed_block_until [OF wf1, of "\<lambda>s'. \<not> thread_alive s'" L "now s1 + sec 5"] wf1
  show ?thesis unfolding close_def Let_def s1_def [symmetric] by simp
qed

section \<open>Properties of the polling loop\<close>

lemma poll_running_eq:
  "poll_running a cid =
     (case decode_response (snd (poll a cid 0)) of
        Inl e \<Rightarrow> Inl e
      | Inr status \<Rightarrow>
          (case py_get status ''status'' of
             Inl e \<Rightarrow> Inl e
           | Inr v \<Rightarrow> Inr (v = Some (JStr ''running''))),
      a\<lparr>clock := clock a + int (fst (poll a cid 0)), requests_made := Suc (requests_made a)\<rparr>)"
  by (simp add: poll_running_def get_container_status_def http_get_def poll_def
           split: prod.splits sum.splits)

lemma poll_running_True:
  "(fst (poll_running a cid) = Inr True) = sees_running (snd (poll a cid 0))"
  by (simp add: poll_running_eq sees_running_def split: sum.splits)

lemma poll_start_mono: "clock a \<le> poll_start a cid k"
  by (induction k) (simp_all add: sec_def)

lemma poll_shift:
  assumes "poll_running a cid = (r, a1)"
  shows "poll (sleep a1 1) cid k = poll a cid (Suc k)"
    and "poll_start (sleep a1 1) cid k = poll_start a cid (Suc k)"
proof -
  from assms have a1: "a1 = a\<lparr>clock := clock a + int (fst (poll a cid 0)),
                              requests_made := Suc (requests_made a)\<rparr>"
    by (simp add: poll_running_eq)
  show p: "\<And>k. poll (sleep a1 1) cid k = poll a cid (Suc k)"
    by (simp add: a1 poll_def sleep_def status_address_def)
  show "poll_start (sleep a1 1) cid k = poll_start a cid (Suc k)"
  proof (induction k)
    case 0
    show ?case by (simp add: a1 sleep_def)
  next
    case (Suc k)
    then show ?case by (simp add: p)
  qed
qed

lemma wait_loop_iff:
  "fst (wait_loop a cid st T) =
     Inr (\<exists>k. poll_start a cid k - st < sec T \<and> sees_running (snd (poll a cid k)))"
proof (induction a cid st T rule: wait_loop.induct)
  case (1 a cid st T)
  show ?case
  proof (cases "clock a - st < sec T")
    case False
    have "\<not> (\<exists>k. poll_start a cid k - st < sec T \<and> sees_running (snd (poll a cid k)))"
      using False poll_start_mono [of a cid] by (auto simp: not_less intro: order_trans)
    with False show ?thesis by (simp add: wait_loop.simps [of a])
  next
    case guard: True
    obtain r a1 where pr: "poll_running a cid = (r, a1)" by (cases "poll_running a cid")
    show ?thesis
    proof (cases "r = Inr True")
      case True
      with pr poll_running_True [of a cid] have "sees_running (snd (poll a cid 0))" by simp
      with guard have "\<exists>k. poll_start a cid k - st < sec T \<and> sees_running (snd (poll a cid k))"
        by (intro exI [of _ 0]) simp
      with guard pr True show ?thesis by (simp add: wait_loop.simps [of a])
    next
      case False
      with pr poll_running_True [of a cid] have no0: "\<not> sees_running (snd (poll a cid 0))"
        by simp
      have rec: "fst (wait_loop a cid st T) = fst (wait_loop (sleep a1 1) cid st T)"
        using guard pr False
        by (cases r) (auto simp: wait_loop.simps [of a] split: bool.splits)
      have ih: "fst (wait_loop (sleep a1 1) cid st T) =
          Inr (\<exists>k. poll_start (sleep a1 1) cid k - st < sec T
                   \<and> sees_running (snd (poll (sleep a1 1) cid k)))"
      proof (cases r)
        case (Inl e)
        from "1.IH"(1) [OF guard pr [symmetric] Inl] show ?thesis .
      next
        case (Inr b)
        with False have "b = False" by simp
        from "1.IH"(2) [OF guard pr [symmetric] Inr this] show ?thesis .
      qed
      have "(\<exists>k. poll_start a cid k - st < sec T \<and> sees_running (snd (poll a cid k)))
          = (\<exists>k. poll_start a cid (Suc k) - st < sec T \<and> sees_running (snd (poll a cid (Suc k))))"
        (is "?l = ?r")
      proof
        assume ?l
        then obtain k where k: "poll_start a cid k - st < sec T" "sees_running (snd (poll a cid k))"
          by blast
        with no0 obtain k' where "k = Suc k'" by (cases k) auto
        with k show ?r by blast
      next
        assume ?r
        then show ?l by blast
      qed
      with rec ih poll_shift [OF pr] show ?thesis by simp
    qed
  qed
qed

section \<open>The claims\<close>




text \<open>
  C5, as the code has it. \<^verbatim>\<open>send_command\<close> raises "not connected" exactly when
  there is no transport object, whatever the connected flag says; with a transport whose
  socket is open it writes the frame \<^verbatim>\<open>{type: input, data: command + "\n"}\<close> and
  returns \<^verbatim>\<open>True\<close>.
\<close>

theorem send_command_guard:
  "(fst (send_command s cmd) = Inl NotConnectedExc \<longleftrightarrow> ws s = None)
   \<and> (\<forall>t. ws s = Some t \<and> sock_open t \<longrightarrow>
          send_command s cmd =
            (Inr True,
             s\<lparr>ws := Some (t\<lparr>sent := sent t @
                 [JObj [(''type'', JStr ''input''), (''data'', JStr (cmd @ [CHR 0x0A]))]]\<rparr>)\<rparr>))"
  by (auto simp: send_command_def ws_send_def input_frame_def split: option.splits)

theorem send_command_guard_witness:
  "send_command live ''ls'' =
     (Inr True,
      live\<lparr>ws := Some \<lparr>url = ''ws://localhost:3006/ws/terminal?container_id=c1'',
                          sent = [JObj [(''type'', JStr ''input''),
                                        (''data'', JStr (''ls'' @ [CHR 0x0A]))]],
                          sock_open = True\<rparr>\<rparr>)"
  using send_command_guard [of live "''ls''"]
  by (simp add: live_def fresh_def)

text \<open>
  C5 as stated fails on a session that is no longer connected but has a transport
  object: the call does not fail with "not connected", it returns \<^verbatim>\<open>False\<close>.
\<close>

theorem send_command_closed_counterexample:
  "\<not> is_connected closed_session
   \<and> send_command closed_session ''ls'' = (Inr False, closed_session)"
  by (simp add: is_connected_def closed_session_def fresh_def send_command_def ws_send_def)

text \<open>
  C6. \<^verbatim>\<open>execute_command_and_wait\<close> empties the queue before it sends: whatever was
  queued when the call begins, the result and the session afterwards are those of the
  call on an empty queue.
\<close>

theorem execute_ignores_queued:
  "execute_command_and_wait L (s\<lparr>messages := q\<rparr>) cmd expected_output timeout =
   execute_command_and_wait L (s\<lparr>messages := []\<rparr>) cmd expected_output timeout"
  by (simp add: execute_command_and_wait_def drain_eq)

text \<open>
  C10. With a transport object, a write that raises makes \<^verbatim>\<open>send_command\<close> return
  \<^verbatim>\<open>False\<close>; nothing is raised and the session is unchanged.
\<close>

theorem send_command_write_fails:
  "ws s = Some t \<Longrightarrow> ws_send t (input_frame cmd) = Inl e \<Longrightarrow>
   send_command s cmd = (Inr False, s)"
  by (simp add: send_command_def)

theorem send_command_write_fails_witness:
  "ws closed_session \<noteq> None \<and> fst (send_command closed_session ''ls'') = Inr False"
proof -
  let ?t = "\<lparr>url = ''ws://localhost:3006/ws/terminal?container_id=c1'',
              sent = [], sock_open = False\<rparr>"
  have w: "ws closed_session = Some ?t" by (simp add: closed_session_def fresh_def)
  have f: "ws_send ?t (input_frame ''ls'') = Inl TransportError" by (simp add: ws_send_def)
  from send_command_write_fails [OF w f] w show ?thesis by simp
qed




text \<open>
  C2, as the code has it. Once the session has closed during the wait (the background
  thread has ended and the queue is empty), the loop of \<^verbatim>\<open>execute_command_and_wait\<close>
  neither raises nor returns early: it returns normally, with exactly the messages
  collected before, and not before the timeout has elapsed.
\<close>

theorem collect_after_close:
  "\<not> thread_alive s \<Longrightarrow> messages s = [] \<Longrightarrow>
   \<exists>s2. collect L s st T ex outs = (Inr outs, s2) \<and> sec T \<le> now s2 - st
        \<and> now s \<le> now s2"
proof (induction L s st T ex outs rule: collect.induct)
  case (1 L s st T ex outs)
  show ?case
  proof (cases "now s - st < sec T")
    case False
    then show ?thesis by (simp add: collect.simps [of L s])
  next
    case True
    let ?s1 = "s\<lparr>now := now s + 1000\<rparr>"
    have go: "get_output L s 1 = (Inr None, ?s1)"
      using "1.prems" by (rule get_output_idle)
    have dead: "\<not> thread_alive ?s1" "messages ?s1 = []"
      using "1.prems" by (simp_all add: thread_alive_def)
    from "1.IH"(1) [OF True go [symmetric] refl refl dead]
    obtain s2 where "collect L ?s1 st T ex outs = (Inr outs, s2)" "sec T \<le> now s2 - st"
      "now ?s1 \<le> now s2" by blast
    with True go show ?thesis by (simp add: collect.simps [of L s])
  qed
qed

theorem collect_after_close_witness:
  "\<not> thread_alive closed_session \<and> messages closed_session = []
   \<and> fst (collect lib0 closed_session 0 2 (Some ''done'') [partial_msg]) = Inr [partial_msg]"
proof -
  have dead: "\<not> thread_alive closed_session" and empty: "messages closed_session = []"
    by (simp_all add: closed_session_def fresh_def thread_alive_def)
  from collect_after_close [OF dead empty, of lib0 0 2 "Some ''done''" "[partial_msg]"]
  obtain s2 where "collect lib0 closed_session 0 2 (Some ''done'') [partial_msg]
      = (Inr [partial_msg], s2)" by blast
  with dead empty show ?thesis by simp
qed

text \<open>
  C2 as stated fails: the remote closes the session 200 ms into the wait, before any
  message contains the expected text. The call still runs until the two seconds are
  over and then returns a normal result with \<^verbatim>\<open>success\<close> true; the session is not
  connected at that point. Nothing reports a lost connection.
\<close>

theorem execute_close_midwait_counterexample:
  "fst (execute_command_and_wait lib0 closing ''ls'' (Some ''done'') 2)
     = Inr \<lparr>command = ''ls'', outputs = [partial_msg], success = True\<rparr>
   \<and> \<not> is_connected (snd (execute_command_and_wait lib0 closing ''ls'' (Some ''done'') 2))
   \<and> now (snd (execute_command_and_wait lib0 closing ''ls'' (Some ''done'') 2)) = 2100"
  by code_simp

text \<open>
  C4, as the code has it. \<^verbatim>\<open>wait_for_container_ready\<close> never raises, and it returns
  true exactly when some poll that is issued strictly before the timeout has elapsed
  since the call returns the status \<^verbatim>\<open>"running"\<close>; a poll that fails in any way
  counts as "not running". The deadline is read only before a poll is issued, not when
  its answer arrives.
\<close>

theorem wait_for_container_ready_iff:
  "fst (wait_for_container_ready a container_id timeout) =
     Inr (\<exists>k. poll_start a container_id k - clock a < sec timeout
             \<and> sees_running (snd (poll a container_id k)))"
  unfolding wait_for_container_ready_def by (rule wait_loop_iff)

theorem wait_for_container_ready_iff_witness:
  "fst (wait_for_container_ready flaky_api ''c1'' 30) = Inr True"
proof -
  have "poll_start flaky_api ''c1'' 3 - clock flaky_api < sec 30
        \<and> sees_running (snd (poll flaky_api ''c1'' 3))"
    by code_simp
  then have "\<exists>k. poll_start flaky_api ''c1'' k - clock flaky_api < sec 30
        \<and> sees_running (snd (poll flaky_api ''c1'' k))" by blast
  with wait_for_container_ready_iff [of flaky_api "''c1''" 30] show ?thesis by simp
qed

text \<open>
  C4 as stated fails when a poll is slow: with a timeout of three seconds the only poll
  is issued at once and its answer, \<^verbatim>\<open>"running"\<close>, arrives after five seconds. No
  poll has observed the status before the three seconds elapsed, yet the call returns
  true.
\<close>

theorem wait_ready_slow_poll_counterexample:
  "fst (wait_for_container_ready slow_api ''c1'' 3) = Inr True
   \<and> clock (snd (wait_for_container_ready slow_api ''c1'' 3)) - clock slow_api = 5000
   \<and> sec 3 = 3000"
  by code_simp






end
